theory Spec2Isabelle
  imports Main "HOL-Library.AList" "HOL-Library.Multiset" "HOL-Library.Sublist"
begin

section \<open>Python string and list primitives used by rosetta.py\<close>

text \<open>
  Strings are \<open>char list\<close>; a character stands for one code point of the Python
  string. The exceptions that the modelled lines can raise are values of \<open>error\<close>.
\<close>

datatype error = ValueError | KeyError | FileNotFoundError | IndexError

text \<open>\<^verbatim>\<open>s.split(sep)\<close> for a one-character separator: never the empty list,
  \<^verbatim>\<open>"".split("_") == [""]\<close>, adjacent separators give empty tokens.\<close>

fun str_split :: "char \<Rightarrow> string \<Rightarrow> string list" where
  "str_split sep [] = [[]]"
| "str_split sep (c # cs) =
     (if c = sep then [] # str_split sep cs
      else (case str_split sep cs of
              [] \<Rightarrow> [[c]]
            | t # ts \<Rightarrow> (c # t) # ts))"

text \<open>\<^verbatim>\<open>sep.join(parts)\<close>.\<close>

fun str_join :: "string \<Rightarrow> string list \<Rightarrow> string" where
  "str_join sep [] = []"
| "str_join sep [t] = t"
| "str_join sep (t # u # ts) = t @ sep @ str_join sep (u # ts)"

text \<open>\<^verbatim>\<open>s.replace(old, new)\<close>: leftmost non-overlapping occurrences; with an empty
  \<open>old\<close> Python inserts \<open>new\<close> before every character and at the end.\<close>

function str_replace :: "string \<Rightarrow> string \<Rightarrow> string \<Rightarrow> string" where
  "str_replace old new [] = (if old = [] then new else [])"
| "str_replace old new (c # cs) =
     (if old = [] then new @ c # str_replace old new cs
      else if prefix old (c # cs)
           then new @ str_replace old new (drop (length old) (c # cs))
           else c # str_replace old new cs)"
  by pat_completeness auto
termination
  by (relation "measure (\<lambda>(old, new, s). length s)") auto

text \<open>Python index normalisation for slices, and \<^verbatim>\<open>xs[start:stop]\<close>
  (\<open>None\<close> for an omitted stop). A slice never raises.\<close>

definition norm_index :: "nat \<Rightarrow> int \<Rightarrow> nat" where
  "norm_index n i = (if i < 0 then nat (max 0 (int n + i)) else min n (nat i))"

definition slice :: "int \<Rightarrow> int option \<Rightarrow> 'a list \<Rightarrow> 'a list" where
  "slice start stop xs =
     (let n = length xs;
          i = norm_index n start;
          j = (case stop of None \<Rightarrow> n | Some s \<Rightarrow> norm_index n s)
      in take (j - i) (drop i xs))"

text \<open>\<^verbatim>\<open>xs[i]\<close>: negative indices count from the end, out of range raises
  IndexError.\<close>

definition item :: "'a list \<Rightarrow> int \<Rightarrow> error + 'a" where
  "item xs i =
     (if 0 \<le> i \<and> i < int (length xs) then Inr (xs ! nat i)
      else if i < 0 \<and> - int (length xs) \<le> i then Inr (xs ! nat (int (length xs) + i))
      else Inl IndexError)"

text \<open>The pandas accessor \<^verbatim>\<open>.str[i]\<close> on a list-valued cell: the element, or NaN
  (\<open>None\<close>) when the index is out of range.\<close>

definition str_get :: "'a list \<Rightarrow> nat \<Rightarrow> 'a option" where
  "str_get xs i = (if i < length xs then Some (xs ! i) else None)"

text \<open>\<^verbatim>\<open>fnmatch(name, pat)\<close> for the patterns of this module, whose only
  metacharacter is \<open>*\<close>.\<close>

fun fnmatch :: "string \<Rightarrow> string \<Rightarrow> bool" where
  "fnmatch [] [] = True"
| "fnmatch (c # cs) [] = False"
| "fnmatch [] (p # ps) = (p = CHR ''*'' \<and> fnmatch [] ps)"
| "fnmatch (c # cs) (p # ps) =
     (if p = CHR ''*'' then fnmatch (c # cs) ps \<or> fnmatch cs (p # ps)
      else p = c \<and> fnmatch cs ps)"

section \<open>The working directory\<close>

text \<open>
  A record file that \<^verbatim>\<open>pd.read_json(path, typ='series')\<close> can parse is represented
  by the series it parses to: the value of its \<open>decoy\<close> key (a string when the key is
  there) and its other key/value pairs, whose keys are none of \<open>decoy\<close>,
  \<open>raw_description\<close>, \<open>description\<close>, \<open>location\<close>. Any other file, an output
  \<open>.pdb\<close> as well as a malformed record, is represented by its text.
\<close>

record series =
  decoy :: "string option"
  others :: "(string \<times> string) list"

datatype content = Json series | Text string

text \<open>
  The working directory holds regular files only. It is the list of its entries, in the
  order in which the operating system lists them, which is the order of \<^verbatim>\<open>glob\<close>.
  Names are unique, and relative to the directory.
\<close>

type_synonym dir = "(string \<times> content) list"


definition glob :: "string \<Rightarrow> dir \<Rightarrow> string list" where
  "glob pat d = filter (\<lambda>n. fnmatch n pat) (map fst d)"

definition isfile :: "string \<Rightarrow> dir \<Rightarrow> bool" where
  "isfile n d = (map_of d n \<noteq> None)"

text \<open>\<^verbatim>\<open>shutil.move(src, dst)\<close> between two names of the directory: the entry is
  renamed, replacing an entry \<open>dst\<close> that is already there; a missing \<open>src\<close>
  raises FileNotFoundError.\<close>

definition move :: "string \<Rightarrow> string \<Rightarrow> dir \<Rightarrow> error + dir" where
  "move src dst d =
     (case map_of d src of
        None \<Rightarrow> Inl FileNotFoundError
      | Some c \<Rightarrow> if src = dst then Inr d
                  else Inr (AList.update dst c (AList.delete src d)))"

text \<open>\<^verbatim>\<open>os.remove(path)\<close>.\<close>

definition remove_file :: "string \<Rightarrow> dir \<Rightarrow> error + dir" where
  "remove_file n d =
     (case map_of d n of
        None \<Rightarrow> Inl FileNotFoundError
      | Some c \<Rightarrow> Inr (AList.delete n d))"

definition read_json :: "string \<Rightarrow> dir \<Rightarrow> error + series" where
  "read_json n d =
     (case map_of d n of
        None \<Rightarrow> Inl FileNotFoundError
      | Some (Text t) \<Rightarrow> Inl ValueError
      | Some (Json s) \<Rightarrow> Inr s)"

section \<open>collect\_scores\<close>

subsection \<open>Lines 132 to 137: the score table\<close>

record row =
  raw_description :: "string option"
  description :: "string option"
  location :: "string option"
  passthrough :: "(string \<times> string) list"

text \<open>The loop of lines 134 and 135: the first file that does not parse raises.\<close>

fun read_scorefiles :: "dir \<Rightarrow> string list \<Rightarrow> error + series list" where
  "read_scorefiles d [] = Inr []"
| "read_scorefiles d (f # fs) =
     (case read_json f d of
        Inl e \<Rightarrow> Inl e
      | Inr s \<Rightarrow> (case read_scorefiles d fs of
                    Inl e \<Rightarrow> Inl e
                  | Inr ss \<Rightarrow> Inr (s # ss)))"

text \<open>The right-hand side of line 137 on one cell of the column:
  \<^verbatim>\<open>.str.split("_").str[1:-1].str.join("_") + "_" + .str.split("_").str[0].str.replace("r", "")\<close>.\<close>

definition description_of :: "string \<Rightarrow> string option" where
  "description_of raw =
     (let toks = str_split CHR ''_'' raw
      in case str_get toks 0 of
           None \<Rightarrow> None
         | Some first \<Rightarrow>
             Some (str_join ''_'' (slice 1 (Some (- 1)) toks) @ ''_'' @ str_replace ''r'' [] first))"

text \<open>Lines 136 and 137. A data frame built from no series, or from series none of which
  has the key \<open>decoy\<close>, has no column \<open>raw_description\<close>, and line 137 raises KeyError.
  A series without the key has NaN (\<open>None\<close>) in the column, and so in \<open>description\<close>.\<close>

definition scores_table :: "series list \<Rightarrow> error + row list" where
  "scores_table scores_l =
     (if \<forall>s \<in> set scores_l. decoy s = None then Inl KeyError
      else Inr (map (\<lambda>s. \<lparr>raw_description = decoy s,
                          description = Option.bind (decoy s) description_of,
                          location = None,
                          passthrough = others s\<rparr>) scores_l))"

subsection \<open>Lines 140 and 141: waiting for the output files\<close>

text \<open>
  Other processes write into the directory while the function waits: \<open>obs t\<close> is the
  directory as it is after \<open>t\<close> calls of \<^verbatim>\<open>time.sleep(1)\<close>. The loop returns the
  number of sleeps, and does not return when the count never reaches \<open>n\<close>.
\<close>

partial_function (option) wait_for_pdbs :: "(nat \<Rightarrow> dir) \<Rightarrow> nat \<Rightarrow> nat \<Rightarrow> nat option" where
  "wait_for_pdbs obs n t =
     (if length (glob ''r*.pdb'' (obs t)) < n then wait_for_pdbs obs n (Suc t) else Some t)"

subsection \<open>Lines 144 to 150: the rename loop\<close>

text \<open>An f-string shows NaN as \<open>nan\<close>.\<close>

definition fstr :: "string option \<Rightarrow> string" where
  "fstr v = (case v of None \<Rightarrow> ''nan'' | Some s \<Rightarrow> s)"

definition names_dict :: "row list \<Rightarrow> (string \<times> string) list" where
  "names_dict scores_df = map (\<lambda>r. (fstr (raw_description r), fstr (description r))) scores_df"

datatype event = Move string string | Warning string string

text \<open>
  The body of the loop. The check of line 148 can only fail when the directory is not
  what the move left: \<open>glitch\<close> is what happens to the directory between the move of
  line 147 and the check (the identity when nothing interferes). The events are the calls
  of \<^verbatim>\<open>shutil.move\<close> and the warnings printed.
\<close>

definition rename_row :: "(dir \<Rightarrow> dir) \<Rightarrow> string \<Rightarrow> string \<Rightarrow> dir \<Rightarrow> (error \<times> dir) + (dir \<times> event list)" where
  "rename_row glitch oldname newname d =
     (let src = oldname @ ''.pdb''; nf = newname @ ''.pdb''
      in case move src nf d of
           Inl e \<Rightarrow> Inl (e, d)
         | Inr d1 \<Rightarrow>
             (let d2 = glitch d1
              in if isfile nf d2 then Inr (d2, [Move src nf])
                 else (case move src nf d2 of
                         Inl e \<Rightarrow> Inl (e, d2)
                       | Inr d3 \<Rightarrow> Inr (d3, [Move src nf, Warning oldname nf, Move src nf]))))"

fun rename_rows :: "(nat \<Rightarrow> dir \<Rightarrow> dir) \<Rightarrow> nat \<Rightarrow> (string \<times> string) list \<Rightarrow> dir \<Rightarrow> (error \<times> dir) + (dir \<times> event list)" where
  "rename_rows glitch i [] d = Inr (d, [])"
| "rename_rows glitch i ((oldname, newname) # rest) d =
     (case rename_row (glitch i) oldname newname d of
        Inl e \<Rightarrow> Inl e
      | Inr (d', evs) \<Rightarrow>
          (case rename_rows glitch (Suc i) rest d' of
             Inl e \<Rightarrow> Inl e
           | Inr (d'', evs') \<Rightarrow> Inr (d'', evs @ evs')))"

subsection \<open>Line 153: the location column\<close>

definition set_location :: "string \<Rightarrow> row list \<Rightarrow> row list" where
  "set_location work_dir scores_df =
     map (\<lambda>r. r\<lparr>location := map_option (\<lambda>desc. work_dir @ ''/'' @ desc @ ''.pdb'') (description r)\<rparr>) scores_df"

subsection \<open>Lines 156 to 161: the sweep over the remaining files\<close>

text \<open>Lines 158 to 160 on one path returned by \<^verbatim>\<open>glob\<close>: the name of the file and
  its new name.\<close>

definition sweep_name :: "string \<Rightarrow> error + (string \<times> string)" where
  "sweep_name path =
     (case item (str_split CHR ''/'' path) (- 1) of
        Inl e \<Rightarrow> Inl e
      | Inr pdb_path \<Rightarrow>
          (case item (str_split CHR ''_'' pdb_path) 0 of
             Inl e \<Rightarrow> Inl e
           | Inr first \<Rightarrow>
               (let idx = str_replace ''r'' [] first;
                    new_name = str_replace ''.pdb'' []
                                 (str_join ''_'' (slice 1 (Some (- 1)) (str_split CHR ''_'' pdb_path)))
                               @ ''_'' @ idx @ ''.pdb''
                in Inr (pdb_path, new_name))))"

fun sweep_loop :: "string list \<Rightarrow> dir \<Rightarrow> (error \<times> dir) + dir" where
  "sweep_loop [] d = Inr d"
| "sweep_loop (path # paths) d =
     (case sweep_name path of
        Inl e \<Rightarrow> Inl (e, d)
      | Inr (pdb_path, new_name) \<Rightarrow>
          (case move pdb_path new_name d of
             Inl e \<Rightarrow> Inl (e, d)
           | Inr d' \<Rightarrow> sweep_loop paths d'))"

definition sweep :: "string \<Rightarrow> dir \<Rightarrow> (error \<times> dir) + dir" where
  "sweep work_dir d = sweep_loop (map (\<lambda>n. work_dir @ ''/'' @ n) (glob ''r*.pdb'' d)) d"

subsection \<open>The whole function\<close>

record outcome =
  table :: "row list"
  final_dir :: dir
  events :: "event list"
  slept :: nat

text \<open>Lines 144 to 166, on the directory \<open>d\<close> that the wait ended on after \<open>t\<close> sleeps.\<close>

definition reconcile :: "string \<Rightarrow> (nat \<Rightarrow> dir \<Rightarrow> dir) \<Rightarrow> row list \<Rightarrow> dir \<Rightarrow> nat \<Rightarrow> (error \<times> dir) + outcome" where
  "reconcile work_dir glitch scores_df d t =
     (case rename_rows glitch 0 (names_dict scores_df) d of
        Inl e \<Rightarrow> Inl e
      | Inr (d1, evs) \<Rightarrow>
          (case sweep work_dir d1 of
             Inl e \<Rightarrow> Inl e
           | Inr d2 \<Rightarrow> Inr \<lparr>table = set_location work_dir scores_df, final_dir = d2,
                            events = evs, slept = t\<rparr>))"

text \<open>The result is \<open>None\<close> when the function does not return, an exception with the
  directory it left behind, or the table with the final directory.\<close>

definition collect_scores :: "string \<Rightarrow> (nat \<Rightarrow> dir) \<Rightarrow> (nat \<Rightarrow> dir \<Rightarrow> dir) \<Rightarrow> ((error \<times> dir) + outcome) option" where
  "collect_scores work_dir obs glitch =
     (case read_scorefiles (obs 0) (glob ''r*_*_score.json'' (obs 0)) of
        Inl e \<Rightarrow> Some (Inl (e, obs 0))
      | Inr scores_l \<Rightarrow>
          (case scores_table scores_l of
             Inl e \<Rightarrow> Some (Inl (e, obs 0))
           | Inr scores_df \<Rightarrow>
               (case wait_for_pdbs obs (length scores_df) 0 of
                  None \<Rightarrow> None
                | Some t \<Rightarrow> Some (reconcile work_dir glitch scores_df (obs t) t))))"

section \<open>Rosetta.run\<close>

text \<open>Modelled from the spec: \<^verbatim>\<open>Runner.check_for_existing_scorefile\<close> is a method
  of the base class \<^verbatim>\<open>Runner\<close>, which is not among the sources. The specification
  says of the stored table that "its presence with valid contents lets the stage be
  skipped on re-run, unless the caller forces re-computation". The work directory is
  \<open>None\<close> when it does not exist.\<close>

definition check_for_existing_scorefile :: "dir option \<Rightarrow> string \<Rightarrow> bool \<Rightarrow> content option" where
  "check_for_existing_scorefile wd scorefile overwrite =
     (if overwrite then None
      else (case wd of None \<Rightarrow> None | Some d \<Rightarrow> map_of d scorefile))"

text \<open>The loop of lines 76 and 77.\<close>

fun remove_all :: "string list \<Rightarrow> dir \<Rightarrow> error + dir" where
  "remove_all [] d = Inr d"
| "remove_all (score # rosetta_scores) d =
     (case remove_file score d of
        Inl e \<Rightarrow> Inl e
      | Inr d' \<Rightarrow> remove_all rosetta_scores d')"

text \<open>Lines 73 to 77, with \<^verbatim>\<open>os.path.isdir(work_dir)\<close> read off the argument.\<close>

definition run_cleanup :: "bool \<Rightarrow> dir option \<Rightarrow> error + dir option" where
  "run_cleanup overwrite wd =
     (case wd of
        None \<Rightarrow> Inr None
      | Some d \<Rightarrow>
          if overwrite
          then (let rosetta_scores = glob ''r*_*_score.json'' d
                in if length rosetta_scores > 0
                   then (case remove_all rosetta_scores d of
                           Inl e \<Rightarrow> Inl e
                         | Inr d' \<Rightarrow> Inr (Some d'))
                   else Inr (Some d))
          else Inr (Some d))"

text \<open>\<^verbatim>\<open>os.makedirs(work_dir, exist_ok=True)\<close> of line 80.\<close>

definition makedirs :: "dir option \<Rightarrow> dir" where
  "makedirs wd = (case wd of None \<Rightarrow> [] | Some d \<Rightarrow> d)"

datatype run_result =
    Skipped content
  | Raised error
  | Collected "((error \<times> dir) + outcome) option"

text \<open>
  Lines 59 to 101. The collaborators that are not among the sources are arguments:
  \<open>wd\<close> is the work directory that \<^verbatim>\<open>generic_run_setup\<close> returns, \<open>rosetta_exec\<close>
  the result of line 66, \<open>cmds\<close> the result of the lines 81 to 87 (an error when
  \<^verbatim>\<open>write_cmd\<close> raises), and \<open>start cs d\<close> the directory, as seen after each
  sleep of \<^verbatim>\<open>collect_scores\<close>, once the job starter has run the commands \<open>cs\<close> on
  the directory \<open>d\<close>. Saving the table and wrapping it (lines 102 to 104) are left to
  the caller.
\<close>

definition run :: "string \<Rightarrow> dir option \<Rightarrow> error + string \<Rightarrow> string \<Rightarrow> bool \<Rightarrow> error + string list
    \<Rightarrow> (string list \<Rightarrow> dir \<Rightarrow> nat \<Rightarrow> dir) \<Rightarrow> (nat \<Rightarrow> dir \<Rightarrow> dir) \<Rightarrow> run_result" where
  "run work_dir wd rosetta_exec scorefile overwrite cmds start glitch =
     (case rosetta_exec of
        Inl e \<Rightarrow> Raised e
      | Inr exec \<Rightarrow>
          (case check_for_existing_scorefile wd scorefile overwrite of
             Some scores \<Rightarrow> Skipped scores
           | None \<Rightarrow>
               (case run_cleanup overwrite wd of
                  Inl e \<Rightarrow> Raised e
                | Inr wd' \<Rightarrow>
                    (case cmds of
                       Inl e \<Rightarrow> Raised e
                     | Inr cs \<Rightarrow>
                         Collected (collect_scores work_dir (start cs (makedirs wd')) glitch)))))"

section \<open>clean\_rosetta\_scorefile\<close>








section \<open>Example runs\<close>

text \<open>A directory that does not change while the function waits, and a file system
  that shows every move at once.\<close>

definition steady :: "dir \<Rightarrow> nat \<Rightarrow> dir" where
  "steady d t = d"

definition no_glitch :: "nat \<Rightarrow> dir \<Rightarrow> dir" where
  "no_glitch i d = d"

definition design_dir :: dir where
  "design_dir =
     [(''r0007_myprotein_score.json'',
       Json \<lparr>decoy = Some ''r0007_myprotein_design'', others = [(''rmsd'', ''1.2'')]\<rparr>),
      (''r0007_myprotein_design.pdb'', Text ''ATOM'')]"

definition design_row :: row where
  "design_row =
     \<lparr>raw_description = Some ''r0007_myprotein_design'', description = Some ''myprotein_0007'',
      location = Some ''wd/myprotein_0007.pdb'', passthrough = [(''rmsd'', ''1.2'')]\<rparr>"

definition design_out :: outcome where
  "design_out =
     \<lparr>table = [design_row],
      final_dir =
        [(''r0007_myprotein_score.json'',
          Json \<lparr>decoy = Some ''r0007_myprotein_design'', others = [(''rmsd'', ''1.2'')]\<rparr>),
         (''myprotein_0007.pdb'', Text ''ATOM'')],
      events = [Move ''r0007_myprotein_design.pdb'' ''myprotein_0007.pdb''],
      slept = 0\<rparr>"

text \<open>A directory that has been reconciled and cleared of its record files, one whose
  output file has not appeared yet, one whose output file appears during the second
  sleep, and one with a malformed record file beside a well-formed one.\<close>

definition reconciled_dir :: dir where
  "reconciled_dir = [(''myprotein_0007.pdb'', Text ''ATOM'')]"

definition waiting_dir :: dir where
  "waiting_dir =
     [(''r0007_myprotein_score.json'',
       Json \<lparr>decoy = Some ''r0007_myprotein_design'', others = [(''rmsd'', ''1.2'')]\<rparr>)]"

definition delayed :: "nat \<Rightarrow> dir" where
  "delayed t = (if t < 2 then waiting_dir else design_dir)"

definition mixed_dir :: dir where
  "mixed_dir =
     [(''r0007_myprotein_score.json'',
       Json \<lparr>decoy = Some ''r0007_myprotein_design'', others = [(''rmsd'', ''1.2'')]\<rparr>),
      (''r0008_other_score.json'', Text ''{decoy''),
      (''r0007_myprotein_design.pdb'', Text ''ATOM''),
      (''r0008_other_design.pdb'', Text ''ATOM'')]"

text \<open>
  The decoys of the commands that \<^verbatim>\<open>write_cmd\<close> writes: the prefix \<open>r\<close> with an
  ordinal free of \<open>r\<close>, then at least one token of the name of the pose, then the suffix
  that Rosetta appends.
\<close>

definition rosetta_decoy :: "string \<Rightarrow> string \<Rightarrow> bool" where
  "rosetta_decoy sfx raw =
     (case str_split CHR ''_'' raw of
        first # second # rest \<Rightarrow>
          rest \<noteq> [] \<and> last rest = sfx
          \<and> (case first of [] \<Rightarrow> False | c # ordinal \<Rightarrow> c = CHR ''r'' \<and> CHR ''r'' \<notin> set ordinal)
      | _ \<Rightarrow> False)"

text \<open>Two record files with distinct decoys that differ in the last token only, and two
  that differ in the ordinal.\<close>

definition collide_dir :: dir where
  "collide_dir =
     [(''r0001_foo_score.json'', Json \<lparr>decoy = Some ''r0001_foo_0001'', others = []\<rparr>),
      (''r0002_foo_score.json'', Json \<lparr>decoy = Some ''r0001_foo_0002'', others = []\<rparr>),
      (''r0001_foo_0001.pdb'', Text ''ATOM 1''),
      (''r0001_foo_0002.pdb'', Text ''ATOM 2'')]"

definition collide_out :: outcome where
  "collide_out =
     \<lparr>table =
        [\<lparr>raw_description = Some ''r0001_foo_0001'', description = Some ''foo_0001'',
          location = Some ''wd/foo_0001.pdb'', passthrough = []\<rparr>,
         \<lparr>raw_description = Some ''r0001_foo_0002'', description = Some ''foo_0001'',
          location = Some ''wd/foo_0001.pdb'', passthrough = []\<rparr>],
      final_dir =
        [(''r0001_foo_score.json'', Json \<lparr>decoy = Some ''r0001_foo_0001'', others = []\<rparr>),
         (''r0002_foo_score.json'', Json \<lparr>decoy = Some ''r0001_foo_0002'', others = []\<rparr>),
         (''foo_0001.pdb'', Text ''ATOM 2'')],
      events = [Move ''r0001_foo_0001.pdb'' ''foo_0001.pdb'',
                Move ''r0001_foo_0002.pdb'' ''foo_0001.pdb''],
      slept = 0\<rparr>"

definition pair_dir :: dir where
  "pair_dir =
     [(''r0001_foo_score.json'', Json \<lparr>decoy = Some ''r0001_foo_0001'', others = []\<rparr>),
      (''r0002_foo_score.json'', Json \<lparr>decoy = Some ''r0002_foo_0001'', others = []\<rparr>),
      (''r0001_foo_0001.pdb'', Text ''ATOM 1''),
      (''r0002_foo_0001.pdb'', Text ''ATOM 2'')]"

definition pair_row1 :: row where
  "pair_row1 = \<lparr>raw_description = Some ''r0001_foo_0001'', description = Some ''foo_0001'',
                 location = Some ''wd/foo_0001.pdb'', passthrough = []\<rparr>"

definition pair_row2 :: row where
  "pair_row2 = \<lparr>raw_description = Some ''r0002_foo_0001'', description = Some ''foo_0002'',
                 location = Some ''wd/foo_0002.pdb'', passthrough = []\<rparr>"

definition pair_out :: outcome where
  "pair_out =
     \<lparr>table = [pair_row1, pair_row2],
      final_dir =
        [(''r0001_foo_score.json'', Json \<lparr>decoy = Some ''r0001_foo_0001'', others = []\<rparr>),
         (''r0002_foo_score.json'', Json \<lparr>decoy = Some ''r0002_foo_0001'', others = []\<rparr>),
         (''foo_0001.pdb'', Text ''ATOM 1''),
         (''foo_0002.pdb'', Text ''ATOM 2'')],
      events = [Move ''r0001_foo_0001.pdb'' ''foo_0001.pdb'',
                Move ''r0002_foo_0001.pdb'' ''foo_0002.pdb''],
      slept = 0\<rparr>"

definition pair_out_rev :: outcome where
  "pair_out_rev =
     \<lparr>table = [pair_row2, pair_row1],
      final_dir =
        [(''r0002_foo_score.json'', Json \<lparr>decoy = Some ''r0002_foo_0001'', others = []\<rparr>),
         (''r0001_foo_score.json'', Json \<lparr>decoy = Some ''r0001_foo_0001'', others = []\<rparr>),
         (''foo_0002.pdb'', Text ''ATOM 2''),
         (''foo_0001.pdb'', Text ''ATOM 1'')],
      events = [Move ''r0002_foo_0001.pdb'' ''foo_0002.pdb'',
                Move ''r0001_foo_0001.pdb'' ''foo_0001.pdb''],
      slept = 0\<rparr>"

text \<open>A directory in which the output file of the second record gets its raw name only
  when the first record is renamed, in its two listing orders of the record files.\<close>

definition chain_dir :: dir where
  "chain_dir =
     [(''r1_r2_score.json'', Json \<lparr>decoy = Some ''r1_r2_x'', others = []\<rparr>),
      (''r2_1_score.json'', Json \<lparr>decoy = Some ''r2_1'', others = []\<rparr>),
      (''r1_r2_x.pdb'', Text ''ATOM A''),
      (''rest.pdb'', Text ''ATOM B'')]"

definition chain_dir_swapped :: dir where
  "chain_dir_swapped =
     [(''r2_1_score.json'', Json \<lparr>decoy = Some ''r2_1'', others = []\<rparr>),
      (''r1_r2_score.json'', Json \<lparr>decoy = Some ''r1_r2_x'', others = []\<rparr>),
      (''r1_r2_x.pdb'', Text ''ATOM A''),
      (''rest.pdb'', Text ''ATOM B'')]"

definition chain_out :: outcome where
  "chain_out =
     \<lparr>table =
        [\<lparr>raw_description = Some ''r1_r2_x'', description = Some ''r2_1'',
          location = Some ''wd/r2_1.pdb'', passthrough = []\<rparr>,
         \<lparr>raw_description = Some ''r2_1'', description = Some ''_2'',
          location = Some ''wd/_2.pdb'', passthrough = []\<rparr>],
      final_dir =
        [(''r1_r2_score.json'', Json \<lparr>decoy = Some ''r1_r2_x'', others = []\<rparr>),
         (''r2_1_score.json'', Json \<lparr>decoy = Some ''r2_1'', others = []\<rparr>),
         (''_2.pdb'', Text ''ATOM A''),
         (''_est.pdb.pdb'', Text ''ATOM B'')],
      events = [Move ''r1_r2_x.pdb'' ''r2_1.pdb'', Move ''r2_1.pdb'' ''_2.pdb''],
      slept = 0\<rparr>"

text \<open>A work directory with a record file of an earlier run beside two other files, and
  a job starter whose commands leave the directory as it is.\<close>

definition stale_dir :: dir where
  "stale_dir =
     [(''r0001_foo_score.json'', Json \<lparr>decoy = Some ''r0001_foo_0001'', others = []\<rparr>),
      (''notes.txt'', Text ''keep''),
      (''r0001_foo_0001.pdb'', Text ''ATOM'')]"

definition idle_start :: "string list \<Rightarrow> dir \<Rightarrow> nat \<Rightarrow> dir" where
  "idle_start cs d t = d"











section \<open>Facts about the string primitives\<close>

lemma str_split_not_Nil: "str_split sep s \<noteq> []"
  by (induction s) (auto split: list.splits)

lemma str_split_no_sep: "t \<in> set (str_split sep s) \<Longrightarrow> sep \<notin> set t"
  by (induction s arbitrary: t) (auto split: list.splits if_splits)

lemma str_split_token: "sep \<notin> set t \<Longrightarrow> str_split sep t = [t]"
  by (induction t) auto

lemma str_split_append:
  "sep \<notin> set t \<Longrightarrow> str_split sep (t @ sep # s) = t # str_split sep s"
  by (induction t) auto

lemma str_split_join:
  "ts \<noteq> [] \<Longrightarrow> \<forall>t \<in> set ts. sep \<notin> set t \<Longrightarrow> str_split sep (str_join [sep] ts) = ts"
proof (induction ts)
  case Nil
  then show ?case by simp
next
  case (Cons t ts)
  show ?case
  proof (cases ts)
    case Nil
    then show ?thesis using Cons.prems by (simp add: str_split_token)
  next
    case (Cons u us)
    then show ?thesis using Cons.IH Cons.prems by (simp add: str_split_append)
  qed
qed

lemma str_join_split: "str_join [sep] (str_split sep s) = s"
proof (induction s)
  case Nil
  then show ?case by simp
next
  case (Cons c cs)
  show ?case
  proof (cases "c = sep")
    case True
    then show ?thesis using Cons str_split_not_Nil[of sep cs]
      by (cases "str_split sep cs") auto
  next
    case False
    then show ?thesis using Cons str_split_not_Nil[of sep cs]
      by (cases "str_split sep cs"; cases "tl (str_split sep cs)") auto
  qed
qed

lemma str_replace_char: "str_replace [x] [] s = filter (\<lambda>c. c \<noteq> x) s"
  by (induction s) auto

lemma slice_middle: "slice 1 (Some (- 1)) xs = butlast (tl xs)"
  by (cases xs) (auto simp: slice_def norm_index_def butlast_conv_take Let_def)


lemma description_of_tokens:
  assumes "\<forall>t \<in> set (first # middle @ [final]). CHR ''_'' \<notin> set t"
  shows "description_of (str_join ''_'' (first # middle @ [final]))
         = Some (str_join ''_'' middle @ ''_'' @ filter (\<lambda>c. c \<noteq> CHR ''r'') first)"
proof -
  have "str_split CHR ''_'' (str_join ''_'' (first # middle @ [final])) = first # middle @ [final]"
    using assms by (intro str_split_join) auto
  then show ?thesis
    by (simp add: description_of_def str_get_def slice_middle str_replace_char)
qed

section \<open>Facts about the score table\<close>

lemma scores_table_rows:
  "scores_table scores_l = Inr scores_df \<Longrightarrow> r \<in> set scores_df \<Longrightarrow>
   description r = Option.bind (raw_description r) description_of"
  by (auto simp: scores_table_def split: if_splits)

lemma set_location_rows:
  "r \<in> set (set_location work_dir scores_df) \<Longrightarrow>
   \<exists>r0 \<in> set scores_df. raw_description r = raw_description r0 \<and> description r = description r0"
  by (auto simp: set_location_def)

lemma reconcile_table:
  "reconcile work_dir glitch scores_df d t = Inr out \<Longrightarrow> table out = set_location work_dir scores_df"
  by (auto simp: reconcile_def split: sum.splits prod.splits)

lemma collect_scores_returns:
  assumes "collect_scores work_dir obs glitch = Some (Inr out)"
  shows "\<exists>scores_l scores_df.
           read_scorefiles (obs 0) (glob ''r*_*_score.json'' (obs 0)) = Inr scores_l
         \<and> scores_table scores_l = Inr scores_df
         \<and> table out = set_location work_dir scores_df"
  using assms
  by (auto simp: collect_scores_def split: sum.splits option.splits dest: reconcile_table)

lemmas run_defs = collect_scores_def steady_def no_glitch_def glob_def read_json_def
  scores_table_def wait_for_pdbs.simps description_of_def str_get_def slice_def norm_index_def
  reconcile_def names_dict_def fstr_def rename_row_def move_def isfile_def sweep_def
  set_location_def sweep_name_def item_def Let_def

lemma design_run: "collect_scores ''wd'' (steady design_dir) no_glitch = Some (Inr design_out)"
  by (simp add: run_defs design_dir_def design_out_def design_row_def)

section \<open>The claims\<close>

text \<open>
  C1 (as amended). For every row of the table that \<open>collect_scores\<close> returns, when the
  raw description consists of the underscore-delimited tokens \<open>first\<close>, \<open>middle\<close>
  (any number of them) and \<open>final\<close>, the description is the middle tokens joined by an
  underscore, followed by an underscore and the first token with every \<open>r\<close> removed.
  The final token is dropped.
\<close>

theorem description_rule:
  assumes "collect_scores work_dir obs glitch = Some (Inr out)"
    and "r \<in> set (table out)"
    and "raw_description r = Some (str_join ''_'' (first # middle @ [final]))"
    and "\<forall>t \<in> set (first # middle @ [final]). CHR ''_'' \<notin> set t"
  shows "description r = Some (str_join ''_'' middle @ ''_'' @ filter (\<lambda>c. c \<noteq> CHR ''r'') first)"
proof -
  from collect_scores_returns[OF assms(1)] obtain scores_l scores_df where
    tbl: "scores_table scores_l = Inr scores_df" "table out = set_location work_dir scores_df"
    by blast
  from set_location_rows assms(2) tbl(2) obtain r0 where
    r0: "r0 \<in> set scores_df" "raw_description r = raw_description r0" "description r = description r0"
    by metis
  have "description r0 = Option.bind (raw_description r0) description_of"
    using scores_table_rows[OF tbl(1) r0(1)] .
  moreover have "raw_description r0 = Some (str_join ''_'' (first # middle @ [final]))"
    using r0(2) assms(3) by simp
  ultimately have "description r0 = description_of (str_join ''_'' (first # middle @ [final]))"
    by simp
  then show ?thesis
    using r0(3) description_of_tokens[OF assms(4)] by simp
qed

theorem description_rule_witness:
  "collect_scores ''wd'' (steady design_dir) no_glitch = Some (Inr design_out)
   \<and> design_row \<in> set (table design_out)
   \<and> raw_description design_row = Some (str_join ''_'' (''r0007'' # [''myprotein''] @ [''design'']))
   \<and> description design_row = Some ''myprotein_0007''"
proof -
  have h2: "design_row \<in> set (table design_out)"
    by (simp add: design_out_def)
  have h3: "raw_description design_row = Some (str_join ''_'' (''r0007'' # [''myprotein''] @ [''design'']))"
    by (simp add: design_row_def)
  have h4: "\<forall>t \<in> set (''r0007'' # [''myprotein''] @ [''design'']). CHR ''_'' \<notin> set t"
    by simp
  from description_rule[OF design_run h2 h3 h4] show ?thesis
    using design_run h2 h3 by simp
qed

text \<open>
  C1 as stated fails: the run on the decoy \<open>r0007_myprotein_design\<close> returns the
  description \<open>myprotein_0007\<close>, not \<open>myprotein_design_0007\<close>, and the cell
  \<open>0001_foo\<close> gives \<open>_0001\<close>, not \<open>foo_0001\<close>.
\<close>

theorem description_rule_counterexample:
  "collect_scores ''wd'' (steady design_dir) no_glitch = Some (Inr design_out)
   \<and> map raw_description (table design_out) = [Some ''r0007_myprotein_design'']
   \<and> map description (table design_out) \<noteq> [Some ''myprotein_design_0007'']
   \<and> description_of ''0001_foo'' \<noteq> Some ''foo_0001''"
  by (simp add: run_defs design_dir_def design_out_def design_row_def)

section \<open>Facts about the wait of lines 140 and 141\<close>

lemma wait_for_pdbs_sound:
  assumes "wait_for_pdbs obs n t = Some T"
  shows "t \<le> T \<and> \<not> length (glob ''r*.pdb'' (obs T)) < n
         \<and> (\<forall>t'. t \<le> t' \<and> t' < T \<longrightarrow> length (glob ''r*.pdb'' (obs t')) < n)"
proof (rule wait_for_pdbs.raw_induct[OF _ assms, where P = "\<lambda>obs n t T. t \<le> T \<and> \<not> length (glob ''r*.pdb'' (obs T)) < n
         \<and> (\<forall>t'. t \<le> t' \<and> t' < T \<longrightarrow> length (glob ''r*.pdb'' (obs t')) < n)"])
  fix w :: "(nat \<Rightarrow> dir) \<Rightarrow> nat \<Rightarrow> nat \<Rightarrow> nat option" and obs n t T
  assume IH: "\<And>obs n t T. w obs n t = Some T \<Longrightarrow> t \<le> T \<and> \<not> length (glob ''r*.pdb'' (obs T)) < n
         \<and> (\<forall>t'. t \<le> t' \<and> t' < T \<longrightarrow> length (glob ''r*.pdb'' (obs t')) < n)"
    and body: "(if length (glob ''r*.pdb'' (obs t)) < n then w obs n (Suc t) else Some t) = Some T"
  show "t \<le> T \<and> \<not> length (glob ''r*.pdb'' (obs T)) < n
         \<and> (\<forall>t'. t \<le> t' \<and> t' < T \<longrightarrow> length (glob ''r*.pdb'' (obs t')) < n)"
  proof (cases "length (glob ''r*.pdb'' (obs t)) < n")
    case True
    with body have "w obs n (Suc t) = Some T" by simp
    from IH[OF this] have ih: "Suc t \<le> T" "\<not> length (glob ''r*.pdb'' (obs T)) < n"
      "\<forall>t'. Suc t \<le> t' \<and> t' < T \<longrightarrow> length (glob ''r*.pdb'' (obs t')) < n" by simp_all
    have "length (glob ''r*.pdb'' (obs t')) < n" if "t \<le> t'" "t' < T" for t'
    proof (cases "t' = t")
      case True
      then show ?thesis using \<open>length (glob ''r*.pdb'' (obs t)) < n\<close> by simp
    next
      case False
      then have "Suc t \<le> t'" using that by simp
      then show ?thesis using ih(3) that by simp
    qed
    then show ?thesis using ih(1,2) by simp
  next
    case False
    with body have "T = t" by simp
    then show ?thesis using False by simp
  qed
qed

lemma wait_for_pdbs_reaches:
  assumes "t \<le> T" "\<not> length (glob ''r*.pdb'' (obs T)) < n"
    and "\<forall>t'. t \<le> t' \<and> t' < T \<longrightarrow> length (glob ''r*.pdb'' (obs t')) < n"
  shows "wait_for_pdbs obs n t = Some T"
  using assms
proof (induction k \<equiv> "T - t" arbitrary: t)
  case 0
  then have "t = T" by simp
  then have "\<not> length (glob ''r*.pdb'' (obs t)) < n" using 0 by simp
  then have "wait_for_pdbs obs n t = Some t"
    by (subst wait_for_pdbs.simps) simp
  then show ?case using \<open>t = T\<close> by simp
next
  case (Suc k)
  then have lt: "t < T" by simp
  then have busy: "length (glob ''r*.pdb'' (obs t)) < n" using Suc.prems by simp
  have "wait_for_pdbs obs n (Suc t) = Some T"
  proof (rule Suc.hyps(1))
    show "k = T - Suc t" using Suc.hyps(2) by simp
    show "Suc t \<le> T" using lt by simp
    show "\<not> length (glob ''r*.pdb'' (obs T)) < n" using Suc.prems(2) .
    show "\<forall>t'. Suc t \<le> t' \<and> t' < T \<longrightarrow> length (glob ''r*.pdb'' (obs t')) < n"
      using Suc.prems(3) by simp
  qed
  then show ?case using busy by (subst wait_for_pdbs.simps) simp
qed

lemma wait_for_pdbs_never:
  assumes "\<forall>t'. t \<le> t' \<longrightarrow> length (glob ''r*.pdb'' (obs t')) < n"
  shows "wait_for_pdbs obs n t = None"
proof (cases "wait_for_pdbs obs n t")
  case None
  then show ?thesis .
next
  case (Some T)
  from wait_for_pdbs_sound[OF this] assms show ?thesis by blast
qed

lemma reconcile_slept:
  "reconcile work_dir glitch scores_df d t = Inr out \<Longrightarrow> slept out = t"
  by (auto simp: reconcile_def split: sum.splits prod.splits)

lemma length_set_location: "length (set_location work_dir scores_df) = length scores_df"
  by (simp add: set_location_def)

text \<open>
  C5. Once the table is built, \<open>collect_scores\<close> does not return, with a table or with
  an exception, while the number of files matching \<open>r*.pdb\<close> stays below the number of
  rows; when \<open>T\<close> is the first poll at which the number has reached the number of rows,
  the renaming of lines 144 to 166 runs on the directory of that poll, after exactly
  \<open>T\<close> sleeps of one time unit; and every returned table has at most as many rows as
  the directory had such files when the wait ended.
\<close>

theorem readiness_barrier:
  assumes "read_scorefiles (obs 0) (glob ''r*_*_score.json'' (obs 0)) = Inr scores_l"
    and "scores_table scores_l = Inr scores_df"
  shows "((\<forall>t. length (glob ''r*.pdb'' (obs t)) < length scores_df)
            \<longrightarrow> collect_scores work_dir obs glitch = None)
       \<and> (\<forall>T. length scores_df \<le> length (glob ''r*.pdb'' (obs T))
              \<and> (\<forall>t<T. length (glob ''r*.pdb'' (obs t)) < length scores_df)
            \<longrightarrow> collect_scores work_dir obs glitch
                  = Some (reconcile work_dir glitch scores_df (obs T) T))
       \<and> (\<forall>out. collect_scores work_dir obs glitch = Some (Inr out)
            \<longrightarrow> length (table out) \<le> length (glob ''r*.pdb'' (obs (slept out)))
              \<and> (\<forall>t<slept out. length (glob ''r*.pdb'' (obs t)) < length (table out)))"
proof (intro conjI allI impI)
  assume "\<forall>t. length (glob ''r*.pdb'' (obs t)) < length scores_df"
  then have "wait_for_pdbs obs (length scores_df) 0 = None"
    by (intro wait_for_pdbs_never) simp
  then show "collect_scores work_dir obs glitch = None"
    using assms by (simp add: collect_scores_def)
next
  fix T
  assume "length scores_df \<le> length (glob ''r*.pdb'' (obs T))
              \<and> (\<forall>t<T. length (glob ''r*.pdb'' (obs t)) < length scores_df)"
  then have "wait_for_pdbs obs (length scores_df) 0 = Some T"
    by (intro wait_for_pdbs_reaches) auto
  then show "collect_scores work_dir obs glitch = Some (reconcile work_dir glitch scores_df (obs T) T)"
    using assms by (simp add: collect_scores_def)
next
  fix out
  assume ret: "collect_scores work_dir obs glitch = Some (Inr out)"
  then obtain T where w: "wait_for_pdbs obs (length scores_df) 0 = Some T"
    and r: "reconcile work_dir glitch scores_df (obs T) T = Inr out"
    using assms by (auto simp: collect_scores_def split: option.splits)
  have T: "slept out = T" using reconcile_slept[OF r] .
  have len: "length (table out) = length scores_df"
    using reconcile_table[OF r] by (simp add: length_set_location)
  from wait_for_pdbs_sound[OF w] T len
  show "length (table out) \<le> length (glob ''r*.pdb'' (obs (slept out)))" by simp
  fix t assume "t < slept out"
  with wait_for_pdbs_sound[OF w] T len
  show "length (glob ''r*.pdb'' (obs t)) < length (table out)" by simp
qed

lemma waiting_table:
  "read_scorefiles waiting_dir (glob ''r*_*_score.json'' waiting_dir)
     = Inr [\<lparr>decoy = Some ''r0007_myprotein_design'', others = [(''rmsd'', ''1.2'')]\<rparr>]"
  "scores_table [\<lparr>decoy = Some ''r0007_myprotein_design'', others = [(''rmsd'', ''1.2'')]\<rparr>]
     = Inr [\<lparr>raw_description = Some ''r0007_myprotein_design'', description = Some ''myprotein_0007'',
             location = None, passthrough = [(''rmsd'', ''1.2'')]\<rparr>]"
  by (simp_all add: run_defs waiting_dir_def)

lemma waiting_count: "glob ''r*.pdb'' waiting_dir = []" "length (glob ''r*.pdb'' design_dir) = 1"
  by (simp_all add: glob_def waiting_dir_def design_dir_def)

lemma design_reconcile:
  "reconcile ''wd'' no_glitch
     [\<lparr>raw_description = Some ''r0007_myprotein_design'', description = Some ''myprotein_0007'',
       location = None, passthrough = [(''rmsd'', ''1.2'')]\<rparr>] design_dir 2
   = Inr (design_out\<lparr>slept := 2\<rparr>)"
  by (simp add: run_defs design_dir_def design_out_def design_row_def)

theorem readiness_barrier_witness:
  "collect_scores ''wd'' (steady waiting_dir) no_glitch = None
   \<and> collect_scores ''wd'' delayed no_glitch = Some (Inr (design_out\<lparr>slept := 2\<rparr>))
   \<and> length (glob ''r*.pdb'' (delayed 1)) < length (table design_out)"
proof -
  have a1: "read_scorefiles (steady waiting_dir 0) (glob ''r*_*_score.json'' (steady waiting_dir 0))
     = Inr [\<lparr>decoy = Some ''r0007_myprotein_design'', others = [(''rmsd'', ''1.2'')]\<rparr>]"
    using waiting_table(1) by (simp add: steady_def)
  have b1: "read_scorefiles (delayed 0) (glob ''r*_*_score.json'' (delayed 0))
     = Inr [\<lparr>decoy = Some ''r0007_myprotein_design'', others = [(''rmsd'', ''1.2'')]\<rparr>]"
    using waiting_table(1) by (simp add: delayed_def)
  note A = readiness_barrier[where obs = "steady waiting_dir" and work_dir = "''wd''"
      and glitch = no_glitch, OF a1 waiting_table(2)]
  note B = readiness_barrier[where obs = delayed and work_dir = "''wd''"
      and glitch = no_glitch, OF b1 waiting_table(2)]
  have never: "\<forall>t. length (glob ''r*.pdb'' (steady waiting_dir t)) < length
     [\<lparr>raw_description = Some ''r0007_myprotein_design'', description = Some ''myprotein_0007'',
             location = None, passthrough = [(''rmsd'', ''1.2'')]\<rparr>]"
    by (simp add: steady_def waiting_count)
  have first: "collect_scores ''wd'' (steady waiting_dir) no_glitch = None"
    using A never by blast
  have late: "length [\<lparr>raw_description = Some ''r0007_myprotein_design'', description = Some ''myprotein_0007'',
             location = None, passthrough = [(''rmsd'', ''1.2'')]\<rparr>] \<le> length (glob ''r*.pdb'' (delayed 2))
     \<and> (\<forall>t<2. length (glob ''r*.pdb'' (delayed t)) < length [\<lparr>raw_description = Some ''r0007_myprotein_design'', description = Some ''myprotein_0007'',
             location = None, passthrough = [(''rmsd'', ''1.2'')]\<rparr>])"
    by (simp add: delayed_def waiting_count)
  have "collect_scores ''wd'' delayed no_glitch
          = Some (reconcile ''wd'' no_glitch
             [\<lparr>raw_description = Some ''r0007_myprotein_design'', description = Some ''myprotein_0007'',
               location = None, passthrough = [(''rmsd'', ''1.2'')]\<rparr>] (delayed 2) 2)"
    using B late by blast
  moreover have "delayed 2 = design_dir" by (simp add: delayed_def)
  ultimately have second: "collect_scores ''wd'' delayed no_glitch = Some (Inr (design_out\<lparr>slept := 2\<rparr>))"
    using design_reconcile by simp
  have "slept (design_out\<lparr>slept := 2\<rparr>) = 2" by simp
  with B second have "\<forall>t<2. length (glob ''r*.pdb'' (delayed t)) < length (table (design_out\<lparr>slept := 2\<rparr>))"
    by metis
  then have "length (glob ''r*.pdb'' (delayed 1)) < length (table design_out)" by simp
  with first second show ?thesis by simp
qed

section \<open>Facts about reading the record files\<close>

lemma glob_subset: "set (glob pat d) \<subseteq> fst ` set d"
  by (auto simp: glob_def)

lemma read_json_listed:
  "f \<in> fst ` set d \<Longrightarrow> read_json f d = Inl ValueError \<or> (\<exists>s. read_json f d = Inr s)"
  by (auto simp: read_json_def map_of_eq_None_iff split: option.splits content.splits)

lemma read_scorefiles_malformed:
  assumes "set fs \<subseteq> fst ` set d"
    and "f \<in> set fs" and "map_of d f = Some (Text t)"
  shows "read_scorefiles d fs = Inl ValueError"
  using assms
proof (induction fs)
  case Nil
  then show ?case by simp
next
  case (Cons g gs)
  from Cons.prems(1) have "g \<in> fst ` set d" by simp
  from read_json_listed[OF this] show ?case
  proof
    assume "read_json g d = Inl ValueError"
    then show ?thesis by simp
  next
    assume "\<exists>s. read_json g d = Inr s"
    then obtain s where s: "read_json g d = Inr s" ..
    then have "g \<noteq> f" using Cons.prems(3) by (auto simp: read_json_def)
    then have "f \<in> set gs" using Cons.prems(2) by simp
    then have "read_scorefiles d gs = Inl ValueError"
      using Cons.IH Cons.prems(1,3) by simp
    then show ?thesis using s by simp
  qed
qed

text \<open>
  C3, on the code. A directory in which no file matches \<open>r*_*_score.json\<close> makes
  \<open>collect_scores\<close> raise KeyError at line 137 instead of returning an empty table.
  A directory that has been reconciled and still holds its record file makes it wait
  for ever.
\<close>

theorem empty_directory_raises:
  "glob ''r*_*_score.json'' reconciled_dir = []
   \<and> collect_scores ''wd'' (steady reconciled_dir) no_glitch = Some (Inl (KeyError, reconciled_dir))
   \<and> collect_scores ''wd'' (steady (final_dir design_out)) no_glitch = None"
proof -
  have "collect_scores ''wd'' (steady reconciled_dir) no_glitch = Some (Inl (KeyError, reconciled_dir))"
    "glob ''r*_*_score.json'' reconciled_dir = []"
    by (simp_all add: run_defs reconciled_dir_def)
  moreover have "wait_for_pdbs (steady (final_dir design_out)) 1 0 = None"
    by (rule wait_for_pdbs_never) (simp add: steady_def design_out_def glob_def)
  then have "collect_scores ''wd'' (steady (final_dir design_out)) no_glitch = None"
    by (simp add: collect_scores_def steady_def design_out_def glob_def read_json_def
        scores_table_def)
  ultimately show ?thesis by simp
qed

text \<open>
  C4 (as amended). When a file that matches \<open>r*_*_score.json\<close> is malformed,
  \<open>collect_scores\<close> raises the ValueError of \<^verbatim>\<open>pd.read_json\<close>: it returns no
  table, whatever the other record files hold, and leaves the directory as it found it.
\<close>

theorem malformed_record_aborts:
  assumes "f \<in> set (glob ''r*_*_score.json'' (obs 0))"
    and "map_of (obs 0) f = Some (Text t)"
  shows "collect_scores work_dir obs glitch = Some (Inl (ValueError, obs 0))"
proof -
  have "read_scorefiles (obs 0) (glob ''r*_*_score.json'' (obs 0)) = Inl ValueError"
    using glob_subset assms by (rule read_scorefiles_malformed)
  then show ?thesis by (simp add: collect_scores_def)
qed

theorem malformed_record_aborts_witness:
  "''r0008_other_score.json'' \<in> set (glob ''r*_*_score.json'' (steady mixed_dir 0))
   \<and> map_of (steady mixed_dir 0) ''r0008_other_score.json'' = Some (Text ''{decoy'')
   \<and> collect_scores ''wd'' (steady mixed_dir) no_glitch = Some (Inl (ValueError, mixed_dir))"
proof -
  have h1: "''r0008_other_score.json'' \<in> set (glob ''r*_*_score.json'' (steady mixed_dir 0))"
    by (simp add: glob_def steady_def mixed_dir_def)
  have h2: "map_of (steady mixed_dir 0) ''r0008_other_score.json'' = Some (Text ''{decoy'')"
    by (simp add: steady_def mixed_dir_def)
  from malformed_record_aborts[where obs = "steady mixed_dir" and work_dir = "''wd''"
      and glitch = no_glitch, OF h1 h2]
  show ?thesis using h1 h2 by (simp add: steady_def)
qed

text \<open>
  C4 as stated fails: beside a malformed record file, the well-formed record
  \<open>r0007_myprotein_score.json\<close> gives no row, since no table is returned.
\<close>

theorem malformed_record_counterexample:
  "read_json ''r0007_myprotein_score.json'' mixed_dir
     = Inr \<lparr>decoy = Some ''r0007_myprotein_design'', others = [(''rmsd'', ''1.2'')]\<rparr>
   \<and> read_json ''r0008_other_score.json'' mixed_dir = Inl ValueError
   \<and> collect_scores ''wd'' (steady mixed_dir) no_glitch = Some (Inl (ValueError, mixed_dir))"
  by (simp add: run_defs mixed_dir_def)

section \<open>Facts about the uniqueness of descriptions\<close>

lemma collide_run: "collect_scores ''wd'' (steady collide_dir) no_glitch = Some (Inr collide_out)"
  by (simp add: run_defs collide_dir_def collide_out_def)

lemma pair_run: "collect_scores ''wd'' (steady pair_dir) no_glitch = Some (Inr pair_out)"
  by (simp add: run_defs pair_dir_def pair_out_def pair_row1_def pair_row2_def)

lemma pair_run_rev: "collect_scores ''wd'' (steady (rev pair_dir)) no_glitch = Some (Inr pair_out_rev)"
  by (simp add: run_defs pair_dir_def pair_out_rev_def pair_row1_def pair_row2_def)


lemma str_join_snoc:
  "ts \<noteq> [] \<Longrightarrow> str_join sep (ts @ [x]) = str_join sep ts @ sep @ x"
proof (induction ts)
  case Nil
  then show ?case by simp
next
  case (Cons t ts)
  then show ?case by (cases ts) auto
qed

lemma rosetta_decoy_tokens:
  assumes "rosetta_decoy sfx raw"
  obtains ordinal middle where
    "str_split CHR ''_'' raw = (CHR ''r'' # ordinal) # middle @ [sfx]"
    "middle \<noteq> []" "CHR ''r'' \<notin> set ordinal"
proof -
  from assms obtain first second rest where
    sp: "str_split CHR ''_'' raw = first # second # rest"
    and rest: "rest \<noteq> []" "last rest = sfx"
    and fst: "(case first of [] \<Rightarrow> False | c # ordinal \<Rightarrow> c = CHR ''r'' \<and> CHR ''r'' \<notin> set ordinal)"
    by (auto simp: rosetta_decoy_def split: list.splits)
  from fst obtain ordinal where first: "first = CHR ''r'' # ordinal" "CHR ''r'' \<notin> set ordinal"
    by (auto split: list.splits)
  have "rest = butlast rest @ [sfx]" using rest by (metis append_butlast_last_id)
  then have "str_split CHR ''_'' raw = (CHR ''r'' # ordinal) # (second # butlast rest) @ [sfx]"
    using sp first by simp
  then show ?thesis using first(2) by (intro that[of ordinal "second # butlast rest"]) auto
qed

lemma description_of_rosetta_decoy:
  assumes "str_split CHR ''_'' raw = (CHR ''r'' # ordinal) # middle @ [sfx]"
    and "middle \<noteq> []" and "CHR ''r'' \<notin> set ordinal"
  shows "description_of raw = Some (str_join ''_'' (middle @ [ordinal]))"
proof -
  have "filter (\<lambda>c. c \<noteq> CHR ''r'') ordinal = ordinal"
    using assms(3) by (induction ordinal) auto
  then show ?thesis
    using assms(1,2)
    by (simp add: description_of_def str_get_def slice_middle str_replace_char str_join_snoc
        butlast_append)
qed

lemma description_of_inj:
  assumes "rosetta_decoy sfx a" and "rosetta_decoy sfx b"
    and "description_of a = description_of b"
  shows "a = b"
proof -
  from assms(1) obtain oa ma where
    a: "str_split CHR ''_'' a = (CHR ''r'' # oa) # ma @ [sfx]" "ma \<noteq> []" "CHR ''r'' \<notin> set oa"
    by (rule rosetta_decoy_tokens)
  from assms(2) obtain ob mb where
    b: "str_split CHR ''_'' b = (CHR ''r'' # ob) # mb @ [sfx]" "mb \<noteq> []" "CHR ''r'' \<notin> set ob"
    by (rule rosetta_decoy_tokens)
  have ta: "\<forall>t \<in> set (ma @ [oa]). CHR ''_'' \<notin> set t"
  proof
    fix t assume "t \<in> set (ma @ [oa])"
    then have "t \<in> set ma \<or> t = oa" by auto
    then show "CHR ''_'' \<notin> set t"
    proof
      assume "t \<in> set ma"
      then have "t \<in> set (str_split CHR ''_'' a)" using a(1) by simp
      then show ?thesis by (rule str_split_no_sep)
    next
      assume "t = oa"
      have "CHR ''r'' # oa \<in> set (str_split CHR ''_'' a)" using a(1) by simp
      then have "CHR ''_'' \<notin> set (CHR ''r'' # oa)" by (rule str_split_no_sep)
      then show ?thesis using \<open>t = oa\<close> by simp
    qed
  qed
  have tb: "\<forall>t \<in> set (mb @ [ob]). CHR ''_'' \<notin> set t"
  proof
    fix t assume "t \<in> set (mb @ [ob])"
    then have "t \<in> set mb \<or> t = ob" by auto
    then show "CHR ''_'' \<notin> set t"
    proof
      assume "t \<in> set mb"
      then have "t \<in> set (str_split CHR ''_'' b)" using b(1) by simp
      then show ?thesis by (rule str_split_no_sep)
    next
      assume "t = ob"
      have "CHR ''r'' # ob \<in> set (str_split CHR ''_'' b)" using b(1) by simp
      then have "CHR ''_'' \<notin> set (CHR ''r'' # ob)" by (rule str_split_no_sep)
      then show ?thesis using \<open>t = ob\<close> by simp
    qed
  qed
  have "str_join ''_'' (ma @ [oa]) = str_join ''_'' (mb @ [ob])"
    using assms(3) description_of_rosetta_decoy[OF a] description_of_rosetta_decoy[OF b] by simp
  then have "str_split CHR ''_'' (str_join ''_'' (ma @ [oa]))
           = str_split CHR ''_'' (str_join ''_'' (mb @ [ob]))" by simp
  moreover have "str_split CHR ''_'' (str_join ''_'' (ma @ [oa])) = ma @ [oa]"
    using ta by (intro str_split_join) auto
  moreover have "str_split CHR ''_'' (str_join ''_'' (mb @ [ob])) = mb @ [ob]"
    using tb by (intro str_split_join) auto
  ultimately have "ma @ [oa] = mb @ [ob]" by simp
  then have "ma = mb" "oa = ob" by auto
  then have "str_split CHR ''_'' a = str_split CHR ''_'' b" using a(1) b(1) by simp
  then have "str_join ''_'' (str_split CHR ''_'' a) = str_join ''_'' (str_split CHR ''_'' b)"
    by simp
  then show ?thesis by (simp add: str_join_split)
qed

lemma collect_scores_rows:
  assumes "collect_scores work_dir obs glitch = Some (Inr out)"
    and "r \<in> set (table out)"
  shows "description r = Option.bind (raw_description r) description_of"
proof -
  from collect_scores_returns[OF assms(1)] obtain scores_l scores_df where
    tbl: "scores_table scores_l = Inr scores_df" "table out = set_location work_dir scores_df"
    by blast
  from set_location_rows assms(2) tbl(2) obtain r0 where
    r0: "r0 \<in> set scores_df" "raw_description r = raw_description r0" "description r = description r0"
    by metis
  then show ?thesis using scores_table_rows[OF tbl(1) r0(1)] by simp
qed

text \<open>
  C2 (as amended). When the decoys of the returned table are pairwise distinct, each of
  the form \<open>r\<close>, ordinal without \<open>r\<close>, one or more further tokens, and one last token
  that is the same for all of them, the descriptions of the table are pairwise distinct.
\<close>

theorem description_unique:
  assumes "collect_scores work_dir obs glitch = Some (Inr out)"
    and "\<forall>r \<in> set (table out). \<exists>raw. raw_description r = Some raw \<and> rosetta_decoy sfx raw"
    and "distinct (map raw_description (table out))"
  shows "distinct (map description (table out))"
proof -
  have eq: "map description (table out)
          = map (\<lambda>v. Option.bind v description_of) (map raw_description (table out))"
    using collect_scores_rows[OF assms(1)] by simp
  have "inj_on (\<lambda>v. Option.bind v description_of) (set (map raw_description (table out)))"
  proof (rule inj_onI)
    fix v w
    assume v: "v \<in> set (map raw_description (table out))"
      and w: "w \<in> set (map raw_description (table out))"
      and same: "Option.bind v description_of = Option.bind w description_of"
    from v assms(2) obtain a where a: "v = Some a" "rosetta_decoy sfx a" by auto
    from w assms(2) obtain b where b: "w = Some b" "rosetta_decoy sfx b" by auto
    from same a(1) b(1) have "description_of a = description_of b" by simp
    from description_of_inj[OF a(2) b(2) this] show "v = w" using a(1) b(1) by simp
  qed
  then have "distinct (map (\<lambda>v. Option.bind v description_of) (map raw_description (table out)))"
    using assms(3) by (subst distinct_map) simp
  then show ?thesis by (simp only: eq)
qed

theorem description_unique_witness:
  "collect_scores ''wd'' (steady pair_dir) no_glitch = Some (Inr pair_out)
   \<and> rosetta_decoy ''0001'' ''r0001_foo_0001'' \<and> rosetta_decoy ''0001'' ''r0002_foo_0001''
   \<and> distinct (map raw_description (table pair_out))
   \<and> distinct (map description (table pair_out))"
proof -
  have d: "rosetta_decoy ''0001'' ''r0001_foo_0001''" "rosetta_decoy ''0001'' ''r0002_foo_0001''"
    by (simp_all add: rosetta_decoy_def)
  then have h2: "\<forall>r \<in> set (table pair_out).
      \<exists>raw. raw_description r = Some raw \<and> rosetta_decoy ''0001'' raw"
    by (simp add: pair_out_def pair_row1_def pair_row2_def)
  have h3: "distinct (map raw_description (table pair_out))"
    by (simp add: pair_out_def pair_row1_def pair_row2_def)
  from description_unique[OF pair_run h2 h3] show ?thesis
    using pair_run d h3 by simp
qed

text \<open>
  C2 as stated fails: the decoys \<open>r0001_foo_0001\<close> and \<open>r0001_foo_0002\<close> are distinct
  and both rows get the description \<open>foo_0001\<close>.
\<close>

theorem description_unique_counterexample:
  "collect_scores ''wd'' (steady collide_dir) no_glitch = Some (Inr collide_out)
   \<and> distinct (map raw_description (table collide_out))
   \<and> \<not> distinct (map description (table collide_out))"
  using collide_run by (simp add: collide_out_def)

section \<open>Facts about the order of discovery\<close>

lemma glob_entries: "glob pat d = map fst (filter (\<lambda>e. fnmatch (fst e) pat) d)"
  by (simp add: glob_def filter_map comp_def)

lemma read_scorefiles_contents:
  assumes "distinct (map fst d)"
  shows "set es \<subseteq> set d \<Longrightarrow> read_scorefiles d (map fst es) = Inr ss \<Longrightarrow> map Json ss = map snd es"
proof (induction es arbitrary: ss)
  case Nil
  then show ?case by simp
next
  case (Cons e es)
  obtain n c where e: "e = (n, c)" by (cases e)
  with Cons.prems(1) have "(n, c) \<in> set d" by simp
  with assms have look: "map_of d n = Some c" by (rule map_of_is_SomeI)
  from Cons.prems(2) e obtain s ss' where
    s: "read_json n d = Inr s" and rest: "read_scorefiles d (map fst es) = Inr ss'"
    and ss: "ss = s # ss'"
    by (auto split: sum.splits)
  from s look have "c = Json s" by (auto simp: read_json_def split: content.splits)
  moreover have "map Json ss' = map snd es" using Cons.IH Cons.prems(1) rest by simp
  ultimately show ?case using e ss by simp
qed

lemma scores_table_mset:
  assumes "mset scores_l1 = mset scores_l2"
    and "scores_table scores_l1 = Inr df1" and "scores_table scores_l2 = Inr df2"
  shows "mset (set_location work_dir df1) = mset (set_location work_dir df2)"
proof -
  from assms(2,3) have "df1 = map (\<lambda>s. \<lparr>raw_description = decoy s,
        description = Option.bind (decoy s) description_of,
        location = None, passthrough = others s\<rparr>) scores_l1"
    and "df2 = map (\<lambda>s. \<lparr>raw_description = decoy s,
        description = Option.bind (decoy s) description_of,
        location = None, passthrough = others s\<rparr>) scores_l2"
    by (auto simp: scores_table_def split: if_splits)
  then show ?thesis using assms(1) by (simp add: set_location_def)
qed

text \<open>
  C8 (as amended). Two runs whose directories hold the same record files, listed in any
  two orders, and that both return a table, return the same rows up to their order: the
  same multiset of rows, hence of pairs of raw description and description, and
  descriptions that are unique in the one table exactly when they are in the other.
  Whether a run returns a table, and which file ends under which name, is not covered:
  the rename loop works in the order of discovery.
\<close>

theorem discovery_order:
  assumes "distinct (map fst (obs1 0))" and "distinct (map fst (obs2 0))"
    and "mset (filter (\<lambda>e. fnmatch (fst e) ''r*_*_score.json'') (obs1 0))
       = mset (filter (\<lambda>e. fnmatch (fst e) ''r*_*_score.json'') (obs2 0))"
    and "collect_scores work_dir obs1 glitch1 = Some (Inr out1)"
    and "collect_scores work_dir obs2 glitch2 = Some (Inr out2)"
  shows "mset (table out1) = mset (table out2)
       \<and> mset (map (\<lambda>r. (raw_description r, description r)) (table out1))
         = mset (map (\<lambda>r. (raw_description r, description r)) (table out2))
       \<and> (distinct (map description (table out1)) \<longleftrightarrow> distinct (map description (table out2)))"
proof -
  let ?recs = "\<lambda>d. filter (\<lambda>e. fnmatch (fst e) ''r*_*_score.json'') d"
  from collect_scores_returns[OF assms(4)] obtain l1 df1 where
    r1: "read_scorefiles (obs1 0) (glob ''r*_*_score.json'' (obs1 0)) = Inr l1"
    and t1: "scores_table l1 = Inr df1" "table out1 = set_location work_dir df1"
    by blast
  from collect_scores_returns[OF assms(5)] obtain l2 df2 where
    r2: "read_scorefiles (obs2 0) (glob ''r*_*_score.json'' (obs2 0)) = Inr l2"
    and t2: "scores_table l2 = Inr df2" "table out2 = set_location work_dir df2"
    by blast
  have c1: "map Json l1 = map snd (?recs (obs1 0))"
    using r1 by (intro read_scorefiles_contents[OF assms(1)]) (auto simp: glob_entries)
  have c2: "map Json l2 = map snd (?recs (obs2 0))"
    using r2 by (intro read_scorefiles_contents[OF assms(2)]) (auto simp: glob_entries)
  define series_of where "series_of = (\<lambda>c. case c of Json s \<Rightarrow> s | Text t \<Rightarrow> \<lparr>decoy = None, others = []\<rparr>)"
  have roundtrip: "map series_of (map Json l) = l" for l
    by (induction l) (auto simp: series_of_def)
  have "image_mset snd (mset (?recs (obs1 0))) = image_mset snd (mset (?recs (obs2 0)))"
    using assms(3) by (rule arg_cong)
  then have "mset (map snd (?recs (obs1 0))) = mset (map snd (?recs (obs2 0)))"
    by (simp only: mset_map)
  then have "mset (map Json l1) = mset (map Json l2)" by (simp only: c1 c2)
  then have "image_mset series_of (mset (map Json l1)) = image_mset series_of (mset (map Json l2))"
    by (rule arg_cong)
  then have "mset (map series_of (map Json l1)) = mset (map series_of (map Json l2))"
    by (simp only: mset_map)
  then have "mset l1 = mset l2" by (simp only: roundtrip)
  from scores_table_mset[OF this t1(1) t2(1)] t1(2) t2(2)
  have rows: "mset (table out1) = mset (table out2)" by simp
  then have pairs: "mset (map (\<lambda>r. (raw_description r, description r)) (table out1))
         = mset (map (\<lambda>r. (raw_description r, description r)) (table out2))"
    by (simp only: mset_map)
  from rows have "mset (map description (table out1)) = mset (map description (table out2))"
    by (simp only: mset_map)
  then have "distinct (map description (table out1)) \<longleftrightarrow> distinct (map description (table out2))"
    by (rule mset_eq_imp_distinct_iff)
  with rows pairs show ?thesis by simp
qed

theorem discovery_order_witness:
  "collect_scores ''wd'' (steady pair_dir) no_glitch = Some (Inr pair_out)
   \<and> collect_scores ''wd'' (steady (rev pair_dir)) no_glitch = Some (Inr pair_out_rev)
   \<and> table pair_out = [pair_row1, pair_row2] \<and> table pair_out_rev = [pair_row2, pair_row1]
   \<and> mset (table pair_out) = mset (table pair_out_rev)
   \<and> distinct (map description (table pair_out_rev))"
proof -
  have h1: "distinct (map fst (steady pair_dir 0))"
    and h2: "distinct (map fst (steady (rev pair_dir) 0))"
    by (simp_all add: steady_def pair_dir_def)
  have h3: "mset (filter (\<lambda>e. fnmatch (fst e) ''r*_*_score.json'') (steady pair_dir 0))
       = mset (filter (\<lambda>e. fnmatch (fst e) ''r*_*_score.json'') (steady (rev pair_dir) 0))"
    by (simp add: steady_def pair_dir_def)
  have "distinct (map description (table pair_out))"
    by (simp add: pair_out_def pair_row1_def pair_row2_def)
  with discovery_order[where ?obs1.0 = "steady pair_dir" and ?obs2.0 = "steady (rev pair_dir)",
      OF h1 h2 h3 pair_run pair_run_rev]
  show ?thesis using pair_run pair_run_rev by (simp add: pair_out_def pair_out_rev_def)
qed

text \<open>
  C8 as stated fails: the order of discovery decides more than the order of the rows.
  The same files, with the two record files listed in the other order, make the rename
  loop of lines 146 and 147 raise FileNotFoundError where the first order returns a
  table.
\<close>

theorem discovery_order_counterexample:
  "mset chain_dir = mset chain_dir_swapped
   \<and> collect_scores ''wd'' (steady chain_dir) no_glitch = Some (Inr chain_out)
   \<and> collect_scores ''wd'' (steady chain_dir_swapped) no_glitch
       = Some (Inl (FileNotFoundError, chain_dir_swapped))"
proof -
  have "mset chain_dir = mset chain_dir_swapped"
    by (simp add: chain_dir_def chain_dir_swapped_def)
  moreover have "collect_scores ''wd'' (steady chain_dir) no_glitch = Some (Inr chain_out)"
    by (simp add: run_defs chain_dir_def chain_out_def)
  moreover have "collect_scores ''wd'' (steady chain_dir_swapped) no_glitch
       = Some (Inl (FileNotFoundError, chain_dir_swapped))"
    by (simp add: run_defs chain_dir_swapped_def)
  ultimately show ?thesis by simp
qed

section \<open>Facts about the cleanup of Rosetta.run\<close>

lemma map_of_filter_names:
  "map_of (filter (\<lambda>e. P (fst e)) d) n = (if P n then map_of d n else None)"
  by (induction d) auto

lemma remove_all_filter:
  "distinct ns \<Longrightarrow> set ns \<subseteq> fst ` set d \<Longrightarrow>
   remove_all ns d = Inr (filter (\<lambda>e. fst e \<notin> set ns) d)"
proof (induction ns arbitrary: d)
  case Nil
  then show ?case by simp
next
  case (Cons n ns)
  from Cons.prems(2) have "map_of d n \<noteq> None"
    by (simp add: map_of_eq_None_iff)
  then have step: "remove_file n d = Inr (AList.delete n d)"
    by (auto simp: remove_file_def)
  have del: "AList.delete n d = filter (\<lambda>e. fst e \<noteq> n) d"
    by (induction d) auto
  have "set ns \<subseteq> fst ` set (AList.delete n d)"
  proof
    fix x assume x: "x \<in> set ns"
    then have "x \<noteq> n" using Cons.prems(1) by auto
    moreover from x Cons.prems(2) obtain c where "(x, c) \<in> set d" by force
    ultimately have "(x, c) \<in> set (AList.delete n d)" by (simp add: del)
    then show "x \<in> fst ` set (AList.delete n d)" by force
  qed
  then have "remove_all ns (AList.delete n d)
           = Inr (filter (\<lambda>e. fst e \<notin> set ns) (AList.delete n d))"
    using Cons.IH Cons.prems(1) by simp
  then show ?case using step by (simp add: del conj_commute)
qed

lemma run_cleanup_overwrite:
  assumes "distinct (map fst d)"
  shows "run_cleanup True (Some d)
         = Inr (Some (filter (\<lambda>e. \<not> fnmatch (fst e) ''r*_*_score.json'') d))"
proof -
  let ?g = "glob ''r*_*_score.json'' d"
  have dg: "distinct ?g" using assms by (simp add: glob_def)
  have sg: "set ?g \<subseteq> fst ` set d" by (auto simp: glob_def)
  have same: "filter (\<lambda>e. fst e \<notin> set ?g) d
            = filter (\<lambda>e. \<not> fnmatch (fst e) ''r*_*_score.json'') d"
    by (rule filter_cong) (auto simp: glob_def)
  show ?thesis
  proof (cases "?g = []")
    case True
    then have "filter (\<lambda>e. fst e \<notin> set ?g) d = d" by simp
    then show ?thesis using True same by (simp add: run_cleanup_def)
  next
    case False
    then show ?thesis
      using remove_all_filter[OF dg sg] same by (simp add: run_cleanup_def)
  qed
qed

text \<open>
  C9. When \<open>run\<close> is called with \<open>overwrite\<close> set and the work directory exists,
  the cleanup of lines 73 to 77 leaves the directory without any file matching
  \<open>r*_*_score.json\<close> and with every other file as it was, and the commands, when
  any are dispatched, are dispatched on that directory.
\<close>

theorem overwrite_removes_score_files:
  assumes "distinct (map fst d)"
  shows "run_cleanup True (Some d)
           = Inr (Some (filter (\<lambda>e. \<not> fnmatch (fst e) ''r*_*_score.json'') d))
       \<and> run work_dir (Some d) rosetta_exec scorefile True cmds start glitch
           = (case rosetta_exec of
                Inl e \<Rightarrow> Raised e
              | Inr exec \<Rightarrow>
                  (case cmds of
                     Inl e \<Rightarrow> Raised e
                   | Inr cs \<Rightarrow>
                       Collected (collect_scores work_dir
                         (start cs (filter (\<lambda>e. \<not> fnmatch (fst e) ''r*_*_score.json'') d))
                         glitch)))
       \<and> (\<forall>n. fnmatch n ''r*_*_score.json''
              \<longrightarrow> map_of (filter (\<lambda>e. \<not> fnmatch (fst e) ''r*_*_score.json'') d) n = None)
       \<and> (\<forall>n. \<not> fnmatch n ''r*_*_score.json''
              \<longrightarrow> map_of (filter (\<lambda>e. \<not> fnmatch (fst e) ''r*_*_score.json'') d) n = map_of d n)"
proof -
  note c = run_cleanup_overwrite[OF assms]
  have "run work_dir (Some d) rosetta_exec scorefile True cmds start glitch
           = (case rosetta_exec of
                Inl e \<Rightarrow> Raised e
              | Inr exec \<Rightarrow>
                  (case cmds of
                     Inl e \<Rightarrow> Raised e
                   | Inr cs \<Rightarrow>
                       Collected (collect_scores work_dir
                         (start cs (filter (\<lambda>e. \<not> fnmatch (fst e) ''r*_*_score.json'') d))
                         glitch)))"
    by (simp add: run_def check_for_existing_scorefile_def c makedirs_def split: sum.splits)
  then show ?thesis
    using c map_of_filter_names[where P = "\<lambda>n. \<not> fnmatch n ''r*_*_score.json''" and d = d]
    by simp
qed

theorem overwrite_removes_score_files_witness:
  "distinct (map fst stale_dir)
   \<and> run_cleanup True (Some stale_dir)
       = Inr (Some [(''notes.txt'', Text ''keep''), (''r0001_foo_0001.pdb'', Text ''ATOM'')])
   \<and> run ''wd'' (Some stale_dir) (Inr ''rosetta_scripts'') ''x_rosetta_scores.json'' True
         (Inr []) idle_start no_glitch
       = Collected (collect_scores ''wd''
           (idle_start [] [(''notes.txt'', Text ''keep''), (''r0001_foo_0001.pdb'', Text ''ATOM'')])
           no_glitch)"
proof -
  have h: "distinct (map fst stale_dir)" by (simp add: stale_dir_def)
  have f: "filter (\<lambda>e. \<not> fnmatch (fst e) ''r*_*_score.json'') stale_dir
         = [(''notes.txt'', Text ''keep''), (''r0001_foo_0001.pdb'', Text ''ATOM'')]"
    by (simp add: stale_dir_def)
  from overwrite_removes_score_files[OF h, where work_dir = "''wd''"
      and rosetta_exec = "Inr ''rosetta_scripts''" and scorefile = "''x_rosetta_scores.json''"
      and cmds = "Inr []" and start = idle_start and glitch = no_glitch]
  show ?thesis using h by (simp add: f)
qed

section \<open>Facts about clean\_rosetta\_scorefile\<close>






section \<open>Facts about the rename loop\<close>







section \<open>Facts about the sweep\<close>

















end
